theory Spec2Isabelle
  imports Main "HOL-Library.Sublist"
begin

section \<open>Python values used by ydkmaker2.py\<close>

text \<open>
  A Python \<open>str\<close> is modelled as a \<^typ>\<open>string\<close> whose characters are the code points
  below 256 (Latin-1); text with other code points is outside the model. The character
  tables below are the ones of \<open>str.isspace\<close>, of the regular-expression classes \<open>\s\<close>
  and \<open>\d\<close>, of \<open>str.splitlines\<close> and of \<open>str.lower\<close> on that range. \<open>None\<close> or a
  string is a \<^typ>\<open>string option\<close>, and it is true in a condition (\<open>if card_id:\<close>,
  \<open>if format_name:\<close>) when it is a non-empty string. Console output (\<open>print\<close>) is not
  part of the model.
\<close>

datatype py_error =
  TypeError | KeyError | IndexError | ValueError | AttributeError
  | RequestException | JSONDecodeError | EOFError

definition is_space :: "char \<Rightarrow> bool" where
  "is_space c \<longleftrightarrow> c \<in> set [CHR 0x09, CHR 0x0A, CHR 0x0B, CHR 0x0C, CHR 0x0D,
      CHR 0x1C, CHR 0x1D, CHR 0x1E, CHR 0x1F, CHR 0x20, CHR 0x85, CHR 0xA0]"

definition is_digit :: "char \<Rightarrow> bool" where
  "is_digit c \<longleftrightarrow> c \<in> set ''0123456789''"

definition is_linebreak :: "char \<Rightarrow> bool" where
  "is_linebreak c \<longleftrightarrow> c \<in> set [CHR 0x0A, CHR 0x0B, CHR 0x0C, CHR 0x0D,
      CHR 0x1C, CHR 0x1D, CHR 0x1E, CHR 0x85]"

text \<open>\<open>s.strip()\<close>\<close>

definition py_strip :: "string \<Rightarrow> string" where
  "py_strip s = rev (dropWhile is_space (rev (dropWhile is_space s)))"

definition upper_chars :: "char list" where
  "upper_chars = ''ABCDEFGHIJKLMNOPQRSTUVWXYZ'' @
     [
      CHR 0xC0, CHR 0xC1, CHR 0xC2, CHR 0xC3, CHR 0xC4, CHR 0xC5, CHR 0xC6, CHR 0xC7,
      CHR 0xC8, CHR 0xC9, CHR 0xCA, CHR 0xCB, CHR 0xCC, CHR 0xCD, CHR 0xCE, CHR 0xCF,
      CHR 0xD0, CHR 0xD1, CHR 0xD2, CHR 0xD3, CHR 0xD4, CHR 0xD5, CHR 0xD6, CHR 0xD8,
      CHR 0xD9, CHR 0xDA, CHR 0xDB, CHR 0xDC, CHR 0xDD, CHR 0xDE]"

definition lower_chars :: "char list" where
  "lower_chars = ''abcdefghijklmnopqrstuvwxyz'' @
     [
      CHR 0xE0, CHR 0xE1, CHR 0xE2, CHR 0xE3, CHR 0xE4, CHR 0xE5, CHR 0xE6, CHR 0xE7,
      CHR 0xE8, CHR 0xE9, CHR 0xEA, CHR 0xEB, CHR 0xEC, CHR 0xED, CHR 0xEE, CHR 0xEF,
      CHR 0xF0, CHR 0xF1, CHR 0xF2, CHR 0xF3, CHR 0xF4, CHR 0xF5, CHR 0xF6, CHR 0xF8,
      CHR 0xF9, CHR 0xFA, CHR 0xFB, CHR 0xFC, CHR 0xFD, CHR 0xFE]"

definition lower_char :: "char \<Rightarrow> char" where
  "lower_char c = (case map_of (zip upper_chars lower_chars) c of Some d \<Rightarrow> d | None \<Rightarrow> c)"

text \<open>\<open>s.lower()\<close>\<close>

definition py_lower :: "string \<Rightarrow> string" where
  "py_lower s = map lower_char s"

text \<open>
  \<open>s.splitlines()\<close>: a line ends at a line boundary, \<open>\r\n\<close> counts as one boundary,
  and there is no empty last line after a final boundary.
\<close>

fun splitlines_from :: "string \<Rightarrow> string \<Rightarrow> string list" where
  "splitlines_from cur [] = (if cur = [] then [] else [cur])"
| "splitlines_from cur (c # cs) =
     (if c = CHR 0x0D \<and> cs \<noteq> [] \<and> hd cs = CHR 0x0A then cur # splitlines_from [] (tl cs)
      else if is_linebreak c then cur # splitlines_from [] cs
      else splitlines_from (cur @ [c]) cs)"

definition py_splitlines :: "string \<Rightarrow> string list" where
  "py_splitlines s = splitlines_from [] s"

text \<open>\<open>sep.join(xs)\<close>\<close>

fun py_join :: "string \<Rightarrow> string list \<Rightarrow> string" where
  "py_join sep [] = []"
| "py_join sep [x] = x"
| "py_join sep (x # y # ys) = x @ sep @ py_join sep (y # ys)"

text \<open>\<open>s.endswith(suf)\<close>\<close>

definition py_endswith :: "string \<Rightarrow> string \<Rightarrow> bool" where
  "py_endswith s suf \<longleftrightarrow> length suf \<le> length s \<and> drop (length s - length suf) s = suf"

text \<open>
  \<open>int(s)\<close> on a non-empty string of decimal digits, the only arguments it gets in this
  program (the groups of the card pattern match \<open>\d+\<close>). Any other string is answered
  with \<open>ValueError\<close> here, although Python's \<open>int\<close> also reads signs, underscores and
  surrounding blanks. CPython converts at most \<open>sys.int_info.default_max_str_digits\<close>,
  that is 4300, digits, leading zeros counted, and raises \<open>ValueError\<close> on a longer
  string.
\<close>

definition int_max_str_digits :: nat where
  "int_max_str_digits = 4300"

definition digit_val :: "char \<Rightarrow> int" where
  "digit_val c = int (of_char c) - 48"

definition py_int :: "string \<Rightarrow> py_error + int" where
  "py_int s = (if s \<noteq> [] \<and> list_all is_digit s
               then (if length s \<le> int_max_str_digits
                     then Inr (foldl (\<lambda>acc c. 10 * acc + digit_val c) 0 s)
                     else Inl ValueError)
               else Inl ValueError)"

text \<open>\<open>a or b\<close> on two values that are \<open>None\<close> or a string.\<close>

definition py_or :: "string option \<Rightarrow> string option \<Rightarrow> string option" where
  "py_or a b = (case a of Some s \<Rightarrow> if s \<noteq> [] then Some s else b | None \<Rightarrow> b)"

subsection \<open>Decoded JSON\<close>

text \<open>
  The value \<open>response.json()\<close> returns. A float, a list and a dict carry the text
  \<open>str()\<close> gives for them, which the program only passes on; the items of a list and
  of a dict are there for subscripting.
\<close>

datatype json =
  JNull | JBool bool | JInt int | JFloat string | JStr string
  | JList string "json list" | JDict string "(string \<times> json) list"

fun digit_char :: "nat \<Rightarrow> char" where
  "digit_char n = ''0123456789'' ! (n mod 10)"

fun dec :: "nat \<Rightarrow> string" where
  "dec n = (if n < 10 then [digit_char n] else dec (n div 10) @ [digit_char n])"

declare dec.simps [simp del]

text \<open>\<open>str(v)\<close>\<close>

fun py_str :: "json \<Rightarrow> string" where
  "py_str JNull = ''None''"
| "py_str (JBool b) = (if b then ''True'' else ''False'')"
| "py_str (JInt i) = (if i < 0 then CHR ''-'' # dec (nat (- i)) else dec (nat i))"
| "py_str (JFloat t) = t"
| "py_str (JStr s) = s"
| "py_str (JList t xs) = t"
| "py_str (JDict t kvs) = t"

text \<open>\<open>v[key]\<close> for a string key: only a dict can be subscripted with one.\<close>

fun getitem_key :: "json \<Rightarrow> string \<Rightarrow> py_error + json" where
  "getitem_key (JDict t kvs) k = (case map_of kvs k of Some v \<Rightarrow> Inr v | None \<Rightarrow> Inl KeyError)"
| "getitem_key v k = Inl TypeError"

text \<open>
  \<open>v[0]\<close>: the first item of a list, the first character of a string; the keys of a
  decoded JSON object are strings, so \<open>0\<close> is never among them.
\<close>

fun getitem_0 :: "json \<Rightarrow> py_error + json" where
  "getitem_0 (JList t xs) = (case xs of [] \<Rightarrow> Inl IndexError | x # _ \<Rightarrow> Inr x)"
| "getitem_0 (JStr s) = (case s of [] \<Rightarrow> Inl IndexError | c # _ \<Rightarrow> Inr (JStr [c]))"
| "getitem_0 (JDict t kvs) = Inl KeyError"
| "getitem_0 v = Inl TypeError"

definition and_then :: "'e + 'a \<Rightarrow> ('a \<Rightarrow> 'e + 'b) \<Rightarrow> 'e + 'b" where
  "and_then r f = (case r of Inl e \<Rightarrow> Inl e | Inr x \<Rightarrow> f x)"

section \<open>The regular expression of \<open>parse_deck_list\<close>\<close>

text \<open>
  A backtracking matcher for the fragment of Python's \<open>re\<close> the program uses: greedy
  \<open>*\<close>, \<open>+\<close> and \<open>?\<close> on a character class, numbered groups, sequence, alternation,
  \<open>^\<close> and \<open>$\<close>. \<open>rx_run\<close> lists the ways a pattern can match from a position, in the
  order backtracking tries them; \<open>rx_first\<close> is the first of them, the one the match
  ends with; \<open>rx_match\<close> is \<open>pattern.match(s)\<close>, the groups of the first match from
  position 0.
\<close>

datatype charclass = CSpace | CDigit | CSet "char list" | CDot

fun cc_mem :: "charclass \<Rightarrow> char \<Rightarrow> bool" where
  "cc_mem CSpace c = is_space c"
| "cc_mem CDigit c = is_digit c"
| "cc_mem (CSet cs) c = (c \<in> set cs)"
| "cc_mem CDot c = (c \<noteq> CHR 0x0A)"

datatype regex =
  One charclass | Star charclass | Plus charclass | Opt charclass
  | Grp nat regex | Seq regex regex | Alt regex regex | Bol | Eol

type_synonym groups = "nat \<Rightarrow> string option"

definition span_len :: "charclass \<Rightarrow> string \<Rightarrow> nat \<Rightarrow> nat" where
  "span_len cc s i = length (takeWhile (cc_mem cc) (drop i s))"

fun rx_run :: "string \<Rightarrow> regex \<Rightarrow> nat \<times> groups \<Rightarrow> (nat \<times> groups) list" where
  "rx_run s (One cc) (i, g) = (if i < length s \<and> cc_mem cc (s ! i) then [(Suc i, g)] else [])"
| "rx_run s (Star cc) (i, g) = map (\<lambda>k. (i + k, g)) (rev [0..<Suc (span_len cc s i)])"
| "rx_run s (Plus cc) (i, g) = map (\<lambda>k. (i + k, g)) (rev [1..<Suc (span_len cc s i)])"
| "rx_run s (Opt cc) (i, g) =
     (if i < length s \<and> cc_mem cc (s ! i) then [(Suc i, g), (i, g)] else [(i, g)])"
| "rx_run s (Grp n r) (i, g) =
     map (\<lambda>(j, g'). (j, g'(n \<mapsto> take (j - i) (drop i s)))) (rx_run s r (i, g))"
| "rx_run s (Seq r1 r2) ig = concat (map (rx_run s r2) (rx_run s r1 ig))"
| "rx_run s (Alt r1 r2) ig = rx_run s r1 ig @ rx_run s r2 ig"
| "rx_run s Bol (i, g) = (if i = 0 then [(i, g)] else [])"
| "rx_run s Eol (i, g) =
     (if i = length s \<or> (Suc i = length s \<and> s ! i = CHR 0x0A) then [(i, g)] else [])"

definition rx_first :: "string \<Rightarrow> regex \<Rightarrow> nat \<times> groups \<Rightarrow> (nat \<times> groups) option" where
  "rx_first s r ig = (case rx_run s r ig of [] \<Rightarrow> None | x # _ \<Rightarrow> Some x)"

definition rx_match :: "regex \<Rightarrow> string \<Rightarrow> groups option" where
  "rx_match r s = map_option snd (rx_first s r (0, \<lambda>_. None))"

text \<open>\<^verbatim>\<open>^(?:\s*(\d+)[xX]?\s*|\s*[xX](\d+)\s*)(.+)$\<close>\<close>

definition card_regex :: regex where
  "card_regex =
     Seq Bol
       (Seq (Alt (Seq (Star CSpace) (Seq (Grp 1 (Plus CDigit)) (Seq (Opt (CSet ''xX'')) (Star CSpace))))
                 (Seq (Star CSpace) (Seq (One (CSet ''xX'')) (Seq (Grp 2 (Plus CDigit)) (Star CSpace)))))
            (Seq (Grp 3 (Plus CDot)) Eol))"

section \<open>\<open>get_card_id\<close>\<close>

text \<open>
  The network is a state \<open>'w\<close> and a function that answers a GET request for a URL and
  returns the next state: \<open>requests.get\<close> raises, or there is a response with a status
  code and a body, whose \<open>json()\<close> raises (\<open>None\<close>) or returns a value.
\<close>

datatype http_outcome = RequestError | Response int "json option"

type_synonym 'w http = "'w \<Rightarrow> string \<Rightarrow> http_outcome \<times> 'w"

definition lookup_url :: "string \<Rightarrow> string option \<Rightarrow> string" where
  "lookup_url card_name format_name =
     ''https://db.ygoprodeck.com/api/v7/cardinfo.php?name='' @ card_name @
     (case format_name of
        Some f \<Rightarrow> if f \<noteq> [] then ''&format='' @ f else []
      | None \<Rightarrow> [])"

text \<open>The body of the \<open>try\<close>: an exception is a left value.\<close>

definition get_card_id_try :: "'w http \<Rightarrow> 'w \<Rightarrow> string \<Rightarrow> string option \<Rightarrow> (py_error + string option) \<times> 'w" where
  "get_card_id_try http_get w card_name format_name =
     (case http_get w (lookup_url card_name format_name) of
        (RequestError, w') \<Rightarrow> (Inl RequestException, w')
      | (Response status_code body, w') \<Rightarrow>
          (if status_code = 200 then
             (case body of
                None \<Rightarrow> Inl JSONDecodeError
              | Some data \<Rightarrow>
                  and_then (getitem_key data ''data'') (\<lambda>d.
                  and_then (getitem_0 d) (\<lambda>c.
                  and_then (getitem_key c ''id'') (\<lambda>i. Inr (Some (py_str i))))))
           else Inr None, w'))"

text \<open>\<open>except Exception\<close>: every exception of the body becomes \<open>None\<close>.\<close>

definition get_card_id :: "'w http \<Rightarrow> 'w \<Rightarrow> string \<Rightarrow> string option \<Rightarrow> string option \<times> 'w" where
  "get_card_id http_get w card_name format_name =
     (case get_card_id_try http_get w card_name format_name of
        (Inl e, w') \<Rightarrow> (None, w')
      | (Inr r, w') \<Rightarrow> (r, w'))"

section \<open>\<open>parse_deck_list\<close>\<close>

text \<open>The values \<open>"main"\<close>, \<open>"extra"\<close> and \<open>"side"\<close> of \<open>current_section\<close>.\<close>

datatype deck_section = SMain | SExtra | SSide

record parse_state =
  main_deck :: "string list"
  extra_deck :: "string list"
  side_deck :: "string list"
  current_section :: deck_section

definition initial_state :: parse_state where
  "initial_state = \<lparr>main_deck = [], extra_deck = [], side_deck = [], current_section = SMain\<rparr>"

text \<open>One round of the inner loop: \<open>append\<close> to the deck of the current section.\<close>

definition append_id :: "string \<Rightarrow> parse_state \<Rightarrow> parse_state" where
  "append_id card_id st =
     (case current_section st of
        SMain \<Rightarrow> st\<lparr>main_deck := main_deck st @ [card_id]\<rparr>
      | SExtra \<Rightarrow> st\<lparr>extra_deck := extra_deck st @ [card_id]\<rparr>
      | SSide \<Rightarrow> st\<lparr>side_deck := side_deck st @ [card_id]\<rparr>)"

text \<open>\<open>for _ in range(quantity)\<close>\<close>

fun add_copies :: "nat \<Rightarrow> string \<Rightarrow> parse_state \<Rightarrow> parse_state" where
  "add_copies 0 card_id st = st"
| "add_copies (Suc n) card_id st = add_copies n card_id (append_id card_id st)"

text \<open>
  The function called for \<open>get_card_id\<close> is a parameter of the parser, so that the
  parser can run with a stub as well as with \<open>get_card_id\<close> itself.
\<close>

type_synonym 'w resolver = "'w \<Rightarrow> string \<Rightarrow> string option \<Rightarrow> string option \<times> 'w"

text \<open>The body of the loop over the lines.\<close>

definition process_line ::
  "'w resolver \<Rightarrow> string option \<Rightarrow> string \<Rightarrow> parse_state \<times> 'w \<Rightarrow> py_error + parse_state \<times> 'w" where
  "process_line resolver format_name raw sw =
     (case sw of (st, w) \<Rightarrow>
      let line = py_strip raw in
      if line = [] then Inr (st, w)
      else if py_lower line = ''#main'' then Inr (st\<lparr>current_section := SMain\<rparr>, w)
      else if py_lower line = ''#extra'' then Inr (st\<lparr>current_section := SExtra\<rparr>, w)
      else if py_lower line = ''#side'' then Inr (st\<lparr>current_section := SSide\<rparr>, w)
      else
        (case rx_match card_regex line of
           None \<Rightarrow> Inr (st, w)
         | Some m \<Rightarrow>
             (case py_or (m 1) (m 2) of
                None \<Rightarrow> Inl TypeError
              | Some digits \<Rightarrow>
                  and_then (py_int digits) (\<lambda>quantity.
                    (case m 3 of
                       None \<Rightarrow> Inl AttributeError
                     | Some rest \<Rightarrow>
                         let card_name = py_strip rest in
                         (case resolver w card_name format_name of
                            (card_id, w') \<Rightarrow>
                              (case card_id of
                                 Some cid \<Rightarrow>
                                   if cid \<noteq> [] then Inr (add_copies (nat quantity) cid st, w')
                                   else Inr (st, w')
                               | None \<Rightarrow> Inr (st, w'))))))))"

fun parse_lines ::
  "'w resolver \<Rightarrow> string option \<Rightarrow> string list \<Rightarrow> parse_state \<times> 'w \<Rightarrow> py_error + parse_state \<times> 'w" where
  "parse_lines resolver format_name [] sw = Inr sw"
| "parse_lines resolver format_name (l # ls) sw =
     and_then (process_line resolver format_name l sw) (parse_lines resolver format_name ls)"

definition parse_deck_list ::
  "'w resolver \<Rightarrow> 'w \<Rightarrow> string \<Rightarrow> string option \<Rightarrow>
   py_error + (string list \<times> string list \<times> string list) \<times> 'w" where
  "parse_deck_list resolver w deck_list format_name =
     and_then (parse_lines resolver format_name (py_splitlines deck_list) (initial_state, w))
       (\<lambda>(st, w'). Inr ((main_deck st, extra_deck st, side_deck st), w'))"

text \<open>
  The values \<open>quantity\<close> and \<open>card_name\<close> that the body of the loop has computed for a
  line when it gets to the lookup (lines 36 to 52); \<open>None\<close> for a line that does not get
  there: a blank line, a section header, a line the pattern does not match.
\<close>

definition card_line :: "string \<Rightarrow> py_error + (int \<times> string) option" where
  "card_line raw =
     (let line = py_strip raw in
      if line = [] \<or> py_lower line = ''#main'' \<or> py_lower line = ''#extra''
         \<or> py_lower line = ''#side'' then Inr None
      else
        (case rx_match card_regex line of
           None \<Rightarrow> Inr None
         | Some m \<Rightarrow>
             (case py_or (m 1) (m 2) of
                None \<Rightarrow> Inl TypeError
              | Some digits \<Rightarrow>
                  and_then (py_int digits) (\<lambda>quantity.
                    (case m 3 of
                       None \<Rightarrow> Inl AttributeError
                     | Some rest \<Rightarrow> Inr (Some (quantity, py_strip rest)))))))"

section \<open>\<open>write_ydk_file\<close>\<close>

text \<open>
  The file is the text written to it, one \<open>file.write\<close> after the other; opening the
  path and the file system are not modelled.
\<close>

definition file_write :: "string \<Rightarrow> string \<Rightarrow> string" where
  "file_write file s = file @ s"

definition write_ydk_file :: "string list \<Rightarrow> string list \<Rightarrow> string list \<Rightarrow> string" where
  "write_ydk_file main_ids extra_ids side_ids =
     (let file = [];
          file = file_write file ''#main\<newline>'';
          file = file_write file (py_join ''\<newline>'' main_ids @ ''\<newline>'');
          file = (if extra_ids \<noteq> []
                  then file_write (file_write file ''\<newline>#extra\<newline>'')
                         (py_join ''\<newline>'' extra_ids @ ''\<newline>'')
                  else file);
          file = (if side_ids \<noteq> []
                  then file_write (file_write file ''\<newline>!side\<newline>'')
                         (py_join ''\<newline>'' side_ids @ ''\<newline>'')
                  else file)
      in file)"

section \<open>\<open>main\<close>\<close>

text \<open>
  The console input is the list of the lines \<open>input()\<close> returns, and \<open>EOFError\<close> when
  it runs out. Lines 108 to 110, the name of the output file:
\<close>

definition ydk_file_name :: "string \<Rightarrow> string" where
  "ydk_file_name typed =
     (let file_name = py_strip typed
      in if \<not> py_endswith file_name ''.ydk'' then file_name @ ''.ydk'' else file_name)"

text \<open>The loop that reads the deck list up to the line \<open>done\<close>.\<close>

fun read_deck_list :: "string list \<Rightarrow> string list \<Rightarrow> py_error + string list \<times> string list" where
  "read_deck_list deck_list [] = Inl EOFError"
| "read_deck_list deck_list (line # rest) =
     (if py_lower (py_strip line) = ''done'' then Inr (deck_list, rest)
      else read_deck_list (deck_list @ [line]) rest)"

text \<open>
  \<open>main\<close> returns the file name, the text of the file and the network state;
  \<open>os.path.abspath\<close> is left out.
\<close>

definition main :: "'w http \<Rightarrow> 'w \<Rightarrow> string list \<Rightarrow> py_error + string \<times> string \<times> 'w" where
  "main http_get w stdin =
     (case stdin of
        [] \<Rightarrow> Inl EOFError
      | typed_format # stdin1 \<Rightarrow>
          let format_name = py_strip typed_format in
          and_then (read_deck_list [] stdin1) (\<lambda>(deck_lines, stdin2).
            let deck_list = py_join ''\<newline>'' deck_lines in
            (case stdin2 of
               [] \<Rightarrow> Inl EOFError
             | typed_name # _ \<Rightarrow>
                 let file_name = ydk_file_name typed_name in
                 and_then (parse_deck_list (get_card_id http_get) w deck_list (Some format_name))
                   (\<lambda>((main_ids, extra_ids, side_ids), w').
                      Inr (file_name, write_ydk_file main_ids extra_ids side_ids, w')))))"

section \<open>A stub for the lookup\<close>

text \<open>
  A resolver that knows two cards and reports every other name as not found; it has
  no state.
\<close>

definition example_stub :: "unit resolver" where
  "example_stub w card_name format_name =
     (if card_name = ''Pot of Greed'' then Some ''55144522''
      else if card_name = ''Monster Reborn'' then Some ''83764719''
      else None, w)"

section \<open>Reading the file back\<close>

text \<open>
  Modelled from the spec: a reader for the file \<open>write_ydk_file\<close> writes. The repository
  has none (its only parser, \<open>parse_deck_list\<close>, reads deck lists), so this one follows
  the layout of section 4.3 of the specification: the text is cut at the line feeds; the
  lines \<open>#main\<close>, \<open>#extra\<close> and \<open>!side\<close> select the section, an empty line is skipped, and
  every other line is an identifier of the section selected last.
\<close>

fun split_lf :: "string \<Rightarrow> string list" where
  "split_lf [] = [[]]"
| "split_lf (c # cs) =
     (if c = CHR 0x0A then [] # split_lf cs
      else (case split_lf cs of l # ls \<Rightarrow> (c # l) # ls | [] \<Rightarrow> [[c]]))"

fun read_ydk_lines :: "deck_section \<Rightarrow> string list \<Rightarrow> string list \<times> string list \<times> string list" where
  "read_ydk_lines sec [] = ([], [], [])"
| "read_ydk_lines sec (l # ls) =
     (if l = [] then read_ydk_lines sec ls
      else if l = ''#main'' then read_ydk_lines SMain ls
      else if l = ''#extra'' then read_ydk_lines SExtra ls
      else if l = ''!side'' then read_ydk_lines SSide ls
      else
        (case read_ydk_lines sec ls of
           (m, e, s) \<Rightarrow>
             (case sec of
                SMain \<Rightarrow> (l # m, e, s)
              | SExtra \<Rightarrow> (m, l # e, s)
              | SSide \<Rightarrow> (m, e, l # s))))"

definition read_ydk :: "string \<Rightarrow> string list \<times> string list \<times> string list" where
  "read_ydk text = read_ydk_lines SMain (split_lf text)"

text \<open>
  The identifiers such a reader can tell from the rest of the file: not empty, without
  a line feed, and not one of the three header lines.
\<close>

definition ydk_id :: "string \<Rightarrow> bool" where
  "ydk_id i \<longleftrightarrow> i \<noteq> [] \<and> CHR 0x0A \<notin> set i \<and> i \<noteq> ''#main'' \<and> i \<noteq> ''#extra'' \<and> i \<noteq> ''!side''"

text \<open>What reading a run of identifier lines adds to the result for the rest.\<close>

fun add_ids :: "deck_section \<Rightarrow> string list \<Rightarrow> string list \<times> string list \<times> string list
    \<Rightarrow> string list \<times> string list \<times> string list" where
  "add_ids SMain xs (m, e, s) = (xs @ m, e, s)"
| "add_ids SExtra xs (m, e, s) = (m, xs @ e, s)"
| "add_ids SSide xs (m, e, s) = (m, e, xs @ s)"

section \<open>Notions the properties are stated with\<close>

text \<open>The deck of a section: the list \<open>append_id\<close> extends when the section is current.\<close>

definition deck_of :: "deck_section \<Rightarrow> parse_state \<Rightarrow> string list" where
  "deck_of sec st = (case sec of SMain \<Rightarrow> main_deck st | SExtra \<Rightarrow> extra_deck st | SSide \<Rightarrow> side_deck st)"

text \<open>
  The failures of a lookup after which \<open>get_card_id\<close> returns \<open>None\<close>: a network error
  (\<open>requests.get\<close> raises), a status other than 200, and, with status 200, a body that is
  not JSON or in which the identifier of the first match is not found: the body is not
  an object, it has no \<open>data\<close>, \<open>data\<close> is empty or not a list, its first item is not an
  object, or that object has no \<open>id\<close>. This is less than every unexpected shape of a
  response: when that \<open>id\<close> is present, whatever JSON value it is (\<open>null\<close>, a list, a
  string), \<open>get_card_id\<close> returns its \<open>str()\<close>.
\<close>

fun first_match_id :: "json \<Rightarrow> json option" where
  "first_match_id (JDict t kvs) =
     (case map_of kvs ''data'' of
        Some (JList t1 (JDict t2 first # others)) \<Rightarrow> map_of first ''id''
      | _ \<Rightarrow> None)"
| "first_match_id v = None"

definition lookup_fails :: "http_outcome \<Rightarrow> bool" where
  "lookup_fails outcome =
     (case outcome of
        RequestError \<Rightarrow> True
      | Response status_code body \<Rightarrow>
          status_code \<noteq> 200 \<or> (case body of None \<Rightarrow> True | Some data \<Rightarrow> first_match_id data = None))"

text \<open>
  A lookup service that knows one card and answers every other request with status
  400 and an error message; it has no state.
\<close>

definition example_http :: "unit http" where
  "example_http w url =
     (if url = ''https://db.ygoprodeck.com/api/v7/cardinfo.php?name=Pot of Greed''
      then Response 200 (Some (JDict [] [(''data'',
             JList [] [JDict [] [(''id'', JInt 55144522), (''name'', JStr ''Pot of Greed'')]])]))
      else Response 400 (Some (JDict [] [(''error'',
             JStr ''No card matching your query was found in the database.'')])), w)"

text \<open>
  A lookup service that answers every request with status 200 and one match whose
  \<open>id\<close> is \<open>null\<close>; it has no state.
\<close>

definition null_id_http :: "unit http" where
  "null_id_http w url =
     (Response 200 (Some (JDict [] [(''data'',
        JList [] [JDict [] [(''id'', JNull), (''name'', JStr ''Pot of Greed'')]])])), w)"

section \<open>Properties\<close>

subsection \<open>Python strings and numbers\<close>

lemma py_endswith_suffix: "py_endswith s suf \<longleftrightarrow> suffix suf s"
  unfolding py_endswith_def
  by (metis suffix_def suffix_length_le append_eq_conv_conj length_append
      add_diff_cancel_right' suffix_drop)

lemma py_join_unlines: "xs \<noteq> [] \<Longrightarrow> py_join sep xs @ sep = concat (map (\<lambda>x. x @ sep) xs)"
  by (induction sep xs rule: py_join.induct) simp_all

lemma py_lower_length: "length (py_lower s) = length s"
  by (simp add: py_lower_def)

lemma suffix_same_length: "suffix a s \<Longrightarrow> suffix b s \<Longrightarrow> length a = length b \<Longrightarrow> a = b"
  by (auto simp: suffix_def)



lemma digit_cases:
  "is_digit c \<Longrightarrow> c = CHR ''0'' \<or> c = CHR ''1'' \<or> c = CHR ''2'' \<or> c = CHR ''3'' \<or> c = CHR ''4''
     \<or> c = CHR ''5'' \<or> c = CHR ''6'' \<or> c = CHR ''7'' \<or> c = CHR ''8'' \<or> c = CHR ''9''"
  by (simp add: is_digit_def)






lemma digit_not_newline: "is_digit c \<Longrightarrow> c \<noteq> CHR 0x0A"
  by (auto simp: is_digit_def)


lemma digit_val_bounds: "is_digit c \<Longrightarrow> 0 \<le> digit_val c \<and> digit_val c \<le> 9"
  unfolding is_digit_def by (auto simp: digit_val_def)

lemma decimal_nonneg:
  "list_all is_digit s \<Longrightarrow> 0 \<le> a \<Longrightarrow> 0 \<le> foldl (\<lambda>acc c. 10 * acc + digit_val c) a s"
proof (induction s arbitrary: a)
  case Nil
  then show ?case by simp
next
  case (Cons c s)
  have "0 \<le> 10 * a + digit_val c"
    using Cons.prems digit_val_bounds [of c] by simp
  with Cons show ?case by simp
qed

lemma decimal_less:
  "list_all is_digit s \<Longrightarrow> 0 \<le> a \<Longrightarrow>
     foldl (\<lambda>acc c. 10 * acc + digit_val c) a s < (a + 1) * 10 ^ length s"
proof (induction s arbitrary: a)
  case Nil
  then show ?case by simp
next
  case (Cons c s)
  let ?b = "10 * a + digit_val c"
  have d: "0 \<le> digit_val c" "digit_val c \<le> 9"
    using Cons.prems digit_val_bounds [of c] by simp_all
  then have "0 \<le> ?b" using Cons.prems by simp
  with Cons have "foldl (\<lambda>acc c. 10 * acc + digit_val c) ?b s < (?b + 1) * 10 ^ length s"
    by simp
  also have "\<dots> \<le> (10 * a + 10) * 10 ^ length s"
    using d by (intro mult_right_mono) simp_all
  also have "\<dots> = (a + 1) * 10 ^ length (c # s)"
    by (simp add: algebra_simps)
  finally show ?case by simp
qed

lemma py_int_short:
  assumes "d \<noteq> []" and "list_all is_digit d" and "length d \<le> int_max_str_digits"
  shows "\<exists>q. py_int d = Inr q \<and> 0 \<le> q \<and> q < 10 ^ int_max_str_digits"
proof -
  let ?q = "foldl (\<lambda>acc c. 10 * acc + digit_val c) 0 d"
  have "?q < 10 ^ length d"
    using decimal_less [OF assms(2), of 0] by simp
  also have "(10::int) ^ length d \<le> 10 ^ int_max_str_digits"
    using assms(3) by (intro power_increasing) simp_all
  finally have "?q < 10 ^ int_max_str_digits" .
  moreover have "0 \<le> ?q"
    using decimal_nonneg [OF assms(2), of 0] by simp
  moreover have "py_int d = Inr ?q"
    using assms by (simp add: py_int_def)
  ultimately show ?thesis by blast
qed

lemma py_int_long: "int_max_str_digits < length d \<Longrightarrow> py_int d = Inl ValueError"
  by (simp add: py_int_def)

lemma py_int_digits:
  assumes "d \<noteq> []" and "list_all is_digit d"
  shows "(\<exists>q. py_int d = Inr q \<and> 0 \<le> q \<and> q < 10 ^ int_max_str_digits)
     \<or> py_int d = Inl ValueError"
proof (cases "length d \<le> int_max_str_digits")
  case True
  with assms show ?thesis by (simp add: py_int_short)
next
  case False
  then show ?thesis by (simp add: py_int_long)
qed

lemma digit_char_val: "is_digit (digit_char k) \<and> digit_val (digit_char k) = int (k mod 10)"
proof -
  have "k mod 10 < 10" by simp
  then have "k mod 10 = 0 \<or> k mod 10 = 1 \<or> k mod 10 = 2 \<or> k mod 10 = 3 \<or> k mod 10 = 4
      \<or> k mod 10 = 5 \<or> k mod 10 = 6 \<or> k mod 10 = 7 \<or> k mod 10 = 8 \<or> k mod 10 = 9"
    by arith
  then show ?thesis
    by (elim disjE) (simp_all add: is_digit_def digit_val_def)
qed

lemma dec_digits: "dec k \<noteq> [] \<and> list_all is_digit (dec k)"
proof (induction k rule: dec.induct)
  case (1 n)
  show ?case
  proof (cases "n < 10")
    case True
    then show ?thesis using digit_char_val [of n] by (simp add: dec.simps [of n] del: digit_char.simps)
  next
    case False
    with 1 show ?thesis using digit_char_val [of n] by (simp add: dec.simps [of n] del: digit_char.simps)
  qed
qed




lemma py_or_groups:
  "d \<noteq> [] \<Longrightarrow> (m 1 = Some d \<and> m 2 = None) \<or> (m 1 = None \<and> m 2 = Some d)
     \<Longrightarrow> py_or (m (1::nat)) (m 2) = Some d"
  by (auto simp: py_or_def)

subsection \<open>The matcher\<close>

lemma span_len_take:
  assumes "k \<le> span_len cc s i"
  shows "length (take k (drop i s)) = k" and "list_all (cc_mem cc) (take k (drop i s))"
proof -
  let ?xs = "drop i s"
  let ?p = "takeWhile (cc_mem cc) ?xs"
  have le: "k \<le> length ?p"
    using assms by (simp add: span_len_def)
  have "length ?p \<le> length ?xs"
    by (rule length_takeWhile_le)
  with le show "length (take k ?xs) = k" by simp
  have "take k ?xs = take k (?p @ dropWhile (cc_mem cc) ?xs)"
    by simp
  also have "\<dots> = take k ?p"
    using le by (simp del: takeWhile_dropWhile_id)
  finally have "set (take k ?xs) \<subseteq> set ?p"
    by (simp add: set_take_subset)
  then show "list_all (cc_mem cc) (take k ?xs)"
    by (auto simp: list_all_iff dest: set_takeWhileD)
qed







lemma in_rx_run_Star: "(j, g') \<in> set (rx_run s (Star cc) (i, g)) \<Longrightarrow> g' = g"
  by auto

lemma in_rx_run_Opt: "(j, g') \<in> set (rx_run s (Opt cc) (i, g)) \<Longrightarrow> g' = g"
  by (auto split: if_splits)

lemma in_rx_run_One: "(j, g') \<in> set (rx_run s (One cc) (i, g)) \<Longrightarrow> g' = g"
  by (auto split: if_splits)

lemma in_rx_run_Grp_Plus:
  assumes "(j, g') \<in> set (rx_run s (Grp n (Plus cc)) (i, g))"
  shows "\<exists>t. t \<noteq> [] \<and> list_all (cc_mem cc) t \<and> g' = g(n \<mapsto> t)"
proof -
  from assms obtain k where k: "1 \<le> k" "k \<le> span_len cc s i" "j = i + k"
    and g': "g' = g(n \<mapsto> take (j - i) (drop i s))"
    by auto
  have "length (take k (drop i s)) = k" "list_all (cc_mem cc) (take k (drop i s))"
    using span_len_take [OF k(2)] by simp_all
  with k g' show ?thesis
    by (intro exI [of _ "take k (drop i s)"]) auto
qed

lemma in_rx_run_Seq:
  "(j, g') \<in> set (rx_run s (Seq r1 r2) ig) \<longleftrightarrow>
     (\<exists>i g. (i, g) \<in> set (rx_run s r1 ig) \<and> (j, g') \<in> set (rx_run s r2 (i, g)))"
  by auto

lemma in_rx_run_Alt:
  "x \<in> set (rx_run s (Alt r1 r2) ig) \<longleftrightarrow> x \<in> set (rx_run s r1 ig) \<or> x \<in> set (rx_run s r2 ig)"
  by simp

lemma in_rx_run_Bol: "(j, g') \<in> set (rx_run s Bol (i, g)) \<Longrightarrow> g' = g"
  by (auto split: if_splits)

lemma in_rx_run_Eol: "(j, g') \<in> set (rx_run s Eol (i, g)) \<Longrightarrow> g' = g"
  by (auto split: if_splits)


text \<open>From here on the equations of \<open>rx_run\<close> are unfolded only where a proof asks for them.\<close>

declare rx_run.simps [simp del]










subsection \<open>The groups of the card pattern\<close>

text \<open>
  Whenever the pattern matches, exactly one of the groups 1 and 2 is set, to a non-empty
  string of digits, and group 3 is set to a non-empty string.
\<close>

lemma digits_first_groups:
  assumes "(j, g') \<in> set (rx_run s
     (Seq (Star CSpace) (Seq (Grp 1 (Plus CDigit)) (Seq (Opt (CSet ''xX'')) (Star CSpace)))) (i, g))"
  shows "\<exists>d. d \<noteq> [] \<and> list_all is_digit d \<and> g' = g(1 \<mapsto> d)"
proof -
  from assms obtain i1 g1 i2 g2 i3 g3 where
    a: "(i1, g1) \<in> set (rx_run s (Star CSpace) (i, g))" and
    b: "(i2, g2) \<in> set (rx_run s (Grp 1 (Plus CDigit)) (i1, g1))" and
    c: "(i3, g3) \<in> set (rx_run s (Opt (CSet ''xX'')) (i2, g2))" and
    d: "(j, g') \<in> set (rx_run s (Star CSpace) (i3, g3))"
    unfolding in_rx_run_Seq by blast
  from in_rx_run_Grp_Plus [OF b] obtain t where
    t: "t \<noteq> []" "list_all (cc_mem CDigit) t" "g2 = g1(1 \<mapsto> t)"
    by (elim exE conjE)
  have "g' = g(1 \<mapsto> t)"
    using in_rx_run_Star [OF a] in_rx_run_Opt [OF c] in_rx_run_Star [OF d] t(3) by simp
  moreover have "list_all is_digit t"
    using t(2) by (simp add: list_all_iff)
  ultimately show ?thesis using t(1) by (intro exI [of _ t]) simp
qed

lemma x_first_groups:
  assumes "(j, g') \<in> set (rx_run s
     (Seq (Star CSpace) (Seq (One (CSet ''xX'')) (Seq (Grp 2 (Plus CDigit)) (Star CSpace)))) (i, g))"
  shows "\<exists>d. d \<noteq> [] \<and> list_all is_digit d \<and> g' = g(2 \<mapsto> d)"
proof -
  from assms obtain i1 g1 i2 g2 i3 g3 where
    a: "(i1, g1) \<in> set (rx_run s (Star CSpace) (i, g))" and
    b: "(i2, g2) \<in> set (rx_run s (One (CSet ''xX'')) (i1, g1))" and
    c: "(i3, g3) \<in> set (rx_run s (Grp 2 (Plus CDigit)) (i2, g2))" and
    d: "(j, g') \<in> set (rx_run s (Star CSpace) (i3, g3))"
    unfolding in_rx_run_Seq by blast
  from in_rx_run_Grp_Plus [OF c] obtain t where
    t: "t \<noteq> []" "list_all (cc_mem CDigit) t" "g3 = g2(2 \<mapsto> t)"
    by (elim exE conjE)
  have "g' = g(2 \<mapsto> t)"
    using in_rx_run_Star [OF a] in_rx_run_One [OF b] in_rx_run_Star [OF d] t(3) by simp
  moreover have "list_all is_digit t"
    using t(2) by (simp add: list_all_iff)
  ultimately show ?thesis using t(1) by (intro exI [of _ t]) simp
qed

lemma name_groups:
  assumes "(j, g') \<in> set (rx_run s (Seq (Grp 3 (Plus CDot)) Eol) (i, g))"
  shows "\<exists>t. t \<noteq> [] \<and> g' = g(3 \<mapsto> t)"
proof -
  from assms obtain i1 g1 where
    a: "(i1, g1) \<in> set (rx_run s (Grp 3 (Plus CDot)) (i, g))" and
    b: "(j, g') \<in> set (rx_run s Eol (i1, g1))"
    unfolding in_rx_run_Seq by blast
  from in_rx_run_Grp_Plus [OF a] obtain t where
    t: "t \<noteq> []" "g1 = g(3 \<mapsto> t)"
    by (elim exE conjE)
  then show ?thesis
    using in_rx_run_Eol [OF b] by (intro exI [of _ t]) simp
qed

lemma card_regex_groups:
  assumes "(j, m) \<in> set (rx_run s card_regex (0, \<lambda>_. None))"
  shows "\<exists>d t. d \<noteq> [] \<and> list_all is_digit d \<and> t \<noteq> [] \<and> m 3 = Some t
           \<and> ((m 1 = Some d \<and> m 2 = None) \<or> (m 1 = None \<and> m 2 = Some d))"
proof -
  let ?e = "\<lambda>_::nat. None :: string option"
  from assms obtain i0 g0 a ga where
    bol: "(i0, g0) \<in> set (rx_run s Bol (0, ?e))" and
    alt: "(a, ga) \<in> set (rx_run s (Seq (Star CSpace) (Seq (Grp 1 (Plus CDigit)) (Seq (Opt (CSet ''xX'')) (Star CSpace)))) (i0, g0))
        \<or> (a, ga) \<in> set (rx_run s (Seq (Star CSpace) (Seq (One (CSet ''xX'')) (Seq (Grp 2 (Plus CDigit)) (Star CSpace)))) (i0, g0))" and
    tail: "(j, m) \<in> set (rx_run s (Seq (Grp 3 (Plus CDot)) Eol) (a, ga))"
    unfolding card_regex_def in_rx_run_Seq [of _ _ _ Bol] in_rx_run_Seq [of _ _ _ "Alt _ _"] in_rx_run_Alt
    by blast
  have g0: "g0 = ?e" using bol by (rule in_rx_run_Bol)
  from name_groups [OF tail] obtain t where t: "t \<noteq> []" "m = ga(3 \<mapsto> t)"
    by (elim exE conjE)
  from alt show ?thesis
  proof
    assume "(a, ga) \<in> set (rx_run s (Seq (Star CSpace) (Seq (Grp 1 (Plus CDigit)) (Seq (Opt (CSet ''xX'')) (Star CSpace)))) (i0, g0))"
    from digits_first_groups [OF this] obtain d where "d \<noteq> []" "list_all is_digit d" "ga = g0(1 \<mapsto> d)"
      by (elim exE conjE)
    with t g0 show ?thesis by (intro exI [of _ d] exI [of _ t]) simp
  next
    assume "(a, ga) \<in> set (rx_run s (Seq (Star CSpace) (Seq (One (CSet ''xX'')) (Seq (Grp 2 (Plus CDigit)) (Star CSpace)))) (i0, g0))"
    from x_first_groups [OF this] obtain d where "d \<noteq> []" "list_all is_digit d" "ga = g0(2 \<mapsto> d)"
      by (elim exE conjE)
    with t g0 show ?thesis by (intro exI [of _ d] exI [of _ t]) simp
  qed
qed

lemma rx_match_card_regex_groups:
  assumes "rx_match card_regex s = Some m"
  shows "\<exists>d t. d \<noteq> [] \<and> list_all is_digit d \<and> t \<noteq> [] \<and> m 3 = Some t
           \<and> ((m 1 = Some d \<and> m 2 = None) \<or> (m 1 = None \<and> m 2 = Some d))"
proof -
  from assms obtain j rest where "rx_run s card_regex (0, \<lambda>_. None) = (j, m) # rest"
    by (auto simp: rx_match_def rx_first_def split: list.splits)
  then have "(j, m) \<in> set (rx_run s card_regex (0, \<lambda>_. None))" by simp
  then show ?thesis by (rule card_regex_groups)
qed



subsection \<open>Card lines\<close>

text \<open>
  \<open>int\<close> gets a non-empty string of digits and group 3 is never \<open>None\<close>, so the only
  exception of \<open>card_line\<close> is the \<open>ValueError\<close> of \<open>int\<close> on more than 4300 digits.
  The body of the loop does with a line what \<open>card_line\<close> says of it.
\<close>

lemma card_line_cases:
  "card_line raw = Inr None
   \<or> (\<exists>q n. card_line raw = Inr (Some (q, n)) \<and> 0 \<le> q \<and> q < 10 ^ int_max_str_digits)
   \<or> card_line raw = Inl ValueError"
proof (cases "rx_match card_regex (py_strip raw)")
  case None
  then show ?thesis by (simp add: card_line_def Let_def)
next
  case (Some m)
  from rx_match_card_regex_groups [OF Some] obtain d t where
    d: "d \<noteq> []" "list_all is_digit d" and t: "m 3 = Some t" and
    g: "(m 1 = Some d \<and> m 2 = None) \<or> (m 1 = None \<and> m 2 = Some d)"
    by (elim exE conjE)
  from py_int_digits [OF d] show ?thesis
  proof
    assume "\<exists>q. py_int d = Inr q \<and> 0 \<le> q \<and> q < 10 ^ int_max_str_digits"
    then obtain q where "py_int d = Inr q" "0 \<le> q" "q < 10 ^ int_max_str_digits"
      by (elim exE conjE)
    then show ?thesis
      using Some t py_or_groups [OF d(1) g]
      by (simp add: card_line_def Let_def and_then_def)
  next
    assume "py_int d = Inl ValueError"
    then show ?thesis
      using Some t py_or_groups [OF d(1) g]
      by (simp add: card_line_def Let_def and_then_def)
  qed
qed

lemma card_line_quantity:
  "card_line raw = Inr (Some (q, n)) \<Longrightarrow> 0 \<le> q \<and> q < 10 ^ int_max_str_digits"
  using card_line_cases [of raw] by auto

lemma card_line_SomeD:
  assumes "card_line raw = Inr (Some (q, n))"
  shows "\<exists>m d rest. py_strip raw \<noteq> [] \<and> py_lower (py_strip raw) \<noteq> ''#main''
     \<and> py_lower (py_strip raw) \<noteq> ''#extra'' \<and> py_lower (py_strip raw) \<noteq> ''#side''
     \<and> rx_match card_regex (py_strip raw) = Some m \<and> py_or (m 1) (m 2) = Some d
     \<and> py_int d = Inr q \<and> m 3 = Some rest \<and> n = py_strip rest"
  using assms unfolding card_line_def Let_def and_then_def
  by (auto split: if_splits option.splits sum.splits)

lemma card_line_NoneD:
  assumes "card_line raw = Inr None"
  shows "py_strip raw = [] \<or> py_lower (py_strip raw) = ''#main''
     \<or> py_lower (py_strip raw) = ''#extra'' \<or> py_lower (py_strip raw) = ''#side''
     \<or> rx_match card_regex (py_strip raw) = None"
proof (cases "rx_match card_regex (py_strip raw)")
  case None
  then show ?thesis by simp
next
  case (Some m)
  from rx_match_card_regex_groups [OF Some] obtain d t where
    d: "d \<noteq> []" "list_all is_digit d" and t: "m 3 = Some t" and
    g: "(m 1 = Some d \<and> m 2 = None) \<or> (m 1 = None \<and> m 2 = Some d)"
    by (elim exE conjE)
  from py_int_digits [OF d] have "(\<exists>q. py_int d = Inr q) \<or> py_int d = Inl ValueError"
    by blast
  then show ?thesis
  proof
    assume "\<exists>q. py_int d = Inr q"
    then obtain q where "py_int d = Inr q" ..
    then show ?thesis
      using assms Some t py_or_groups [OF d(1) g]
      by (simp add: card_line_def Let_def and_then_def split: if_splits)
  next
    assume "py_int d = Inl ValueError"
    then show ?thesis
      using assms Some t py_or_groups [OF d(1) g]
      by (simp add: card_line_def Let_def and_then_def split: if_splits)
  qed
qed

lemma card_line_ErrorD:
  assumes "card_line raw = Inl e"
  shows "\<exists>m. py_strip raw \<noteq> [] \<and> py_lower (py_strip raw) \<noteq> ''#main''
     \<and> py_lower (py_strip raw) \<noteq> ''#extra'' \<and> py_lower (py_strip raw) \<noteq> ''#side''
     \<and> rx_match card_regex (py_strip raw) = Some m
     \<and> (case py_or (m 1) (m 2) of
           None \<Rightarrow> Inl TypeError
         | Some digits \<Rightarrow>
             and_then (py_int digits) (\<lambda>quantity.
               (case m 3 of
                  None \<Rightarrow> Inl AttributeError
                | Some rest \<Rightarrow> Inr (Some (quantity, py_strip rest))))) = Inl e"
  using assms unfolding card_line_def Let_def
  by (auto split: if_splits option.splits)


lemma process_line_error:
  assumes "card_line raw = Inl e"
  shows "process_line resolver format_name raw (st, w) = Inl e"
proof -
  from card_line_ErrorD [OF assms] obtain m where
    "py_strip raw \<noteq> []" "py_lower (py_strip raw) \<noteq> ''#main''"
    "py_lower (py_strip raw) \<noteq> ''#extra''" "py_lower (py_strip raw) \<noteq> ''#side''"
    "rx_match card_regex (py_strip raw) = Some m" and
    e: "(case py_or (m 1) (m 2) of
           None \<Rightarrow> Inl TypeError
         | Some digits \<Rightarrow>
             and_then (py_int digits) (\<lambda>quantity.
               (case m 3 of
                  None \<Rightarrow> Inl AttributeError
                | Some rest \<Rightarrow> Inr (Some (quantity, py_strip rest))))) = Inl e"
    by (elim exE conjE)
  then show ?thesis
    by (auto simp: process_line_def Let_def and_then_def split: option.splits sum.splits)
qed

lemma process_line_card:
  assumes "card_line raw = Inr (Some (q, n))"
  shows "process_line resolver format_name raw (st, w) =
    (case resolver w n format_name of
       (card_id, w') \<Rightarrow>
         (case card_id of
            Some cid \<Rightarrow> if cid \<noteq> [] then Inr (add_copies (nat q) cid st, w') else Inr (st, w')
          | None \<Rightarrow> Inr (st, w')))"
proof -
  from card_line_SomeD [OF assms] obtain m d rest where
    "py_strip raw \<noteq> []" "py_lower (py_strip raw) \<noteq> ''#main''"
    "py_lower (py_strip raw) \<noteq> ''#extra''" "py_lower (py_strip raw) \<noteq> ''#side''"
    "rx_match card_regex (py_strip raw) = Some m" "py_or (m 1) (m 2) = Some d"
    "py_int d = Inr q" "m 3 = Some rest" "n = py_strip rest"
    by (elim exE conjE)
  then show ?thesis
    by (simp add: process_line_def Let_def and_then_def)
qed

lemma process_line_other:
  assumes "card_line raw = Inr None"
  shows "\<exists>sec. process_line resolver format_name raw (st, w) = Inr (st\<lparr>current_section := sec\<rparr>, w)"
proof -
  have same: "st = st\<lparr>current_section := current_section st\<rparr>" by simp
  consider "py_strip raw = []"
    | "py_strip raw \<noteq> []" "py_lower (py_strip raw) = ''#main''"
    | "py_strip raw \<noteq> []" "py_lower (py_strip raw) = ''#extra''"
    | "py_strip raw \<noteq> []" "py_lower (py_strip raw) = ''#side''"
    | "py_strip raw \<noteq> []" "py_lower (py_strip raw) \<noteq> ''#main''"
      "py_lower (py_strip raw) \<noteq> ''#extra''" "py_lower (py_strip raw) \<noteq> ''#side''"
      "rx_match card_regex (py_strip raw) = None"
    using card_line_NoneD [OF assms] by argo
  then show ?thesis
  proof cases
    case 1
    then have "process_line resolver format_name raw (st, w) = Inr (st, w)"
      by (simp add: process_line_def)
    with same show ?thesis by metis
  next
    case 2
    then show ?thesis by (intro exI [of _ SMain]) (simp add: process_line_def)
  next
    case 3
    then show ?thesis by (intro exI [of _ SExtra]) (simp add: process_line_def)
  next
    case 4
    then show ?thesis by (intro exI [of _ SSide]) (simp add: process_line_def)
  next
    case 5
    then have "process_line resolver format_name raw (st, w) = Inr (st, w)"
      by (simp add: process_line_def)
    with same show ?thesis by metis
  qed
qed

lemma process_line_not_found:
  assumes "card_line raw = Inr (Some (q, n))" and "resolver w n format_name = (None, w')"
  shows "process_line resolver format_name raw (st, w) = Inr (st, w')"
  using assms(2) by (simp add: process_line_card [OF assms(1)])

subsection \<open>The decks only grow\<close>

lemma add_copies_eq:
  "add_copies k cid st =
     (case current_section st of
        SMain \<Rightarrow> st\<lparr>main_deck := main_deck st @ replicate k cid\<rparr>
      | SExtra \<Rightarrow> st\<lparr>extra_deck := extra_deck st @ replicate k cid\<rparr>
      | SSide \<Rightarrow> st\<lparr>side_deck := side_deck st @ replicate k cid\<rparr>)"
proof (induction k arbitrary: st)
  case 0
  then show ?case by (simp split: deck_section.splits)
next
  case (Suc k)
  show ?case
    by (simp add: Suc.IH append_id_def replicate_append_same split: deck_section.splits)
qed

lemma add_copies_deck_of:
  "deck_of sec (add_copies k cid st) =
     (if sec = current_section st then deck_of sec st @ replicate k cid else deck_of sec st)"
  by (simp add: add_copies_eq deck_of_def split: deck_section.splits)

lemma add_copies_section: "current_section (add_copies k cid st) = current_section st"
  by (simp add: add_copies_eq split: deck_section.splits)

lemma process_line_appends:
  assumes "process_line resolver format_name raw (st, w) = Inr (st', w')"
  shows "prefix (deck_of sec st) (deck_of sec st')"
proof -
  from card_line_cases [of raw] consider "card_line raw = Inr None"
    | q n where "card_line raw = Inr (Some (q, n))"
    | "card_line raw = Inl ValueError" by blast
  then show ?thesis
  proof cases
    case 1
    from process_line_other [OF 1, of resolver format_name st w] assms
    show ?thesis by (auto simp: deck_of_def split: deck_section.splits)
  next
    case 2
    from assms show ?thesis
      unfolding process_line_card [OF 2]
      by (auto simp: add_copies_deck_of split: prod.splits option.splits if_splits)
  next
    case 3
    from process_line_error [OF 3, of resolver format_name st w] assms
    show ?thesis by simp
  qed
qed

lemma parse_lines_appends:
  "parse_lines resolver format_name ls (st, w) = Inr (st', w') \<Longrightarrow>
     prefix (deck_of sec st) (deck_of sec st')"
proof (induction ls arbitrary: st w)
  case Nil
  then show ?case by simp
next
  case (Cons l ls)
  from Cons.prems obtain st1 w1 where
    step: "process_line resolver format_name l (st, w) = Inr (st1, w1)" and
    rest: "parse_lines resolver format_name ls (st1, w1) = Inr (st', w')"
    by (auto simp: and_then_def split: sum.splits)
  from process_line_appends [OF step] Cons.IH [OF rest]
  show ?case by (rule prefix_order.trans)
qed

lemma parse_lines_append:
  "parse_lines resolver format_name (xs @ ys) sw =
     and_then (parse_lines resolver format_name xs sw) (parse_lines resolver format_name ys)"
  by (induction xs arbitrary: sw) (simp_all add: and_then_def split: sum.splits)

subsection \<open>The lookup\<close>

lemma lookup_fails_kinds:
  "lookup_fails RequestError"
  "status_code \<noteq> 200 \<Longrightarrow> lookup_fails (Response status_code body)"
  "lookup_fails (Response 200 None)"
  "lookup_fails (Response 200 (Some (JDict t [])))"
  "lookup_fails (Response 200 (Some (JDict t [(''data'', JList t1 [])])))"
  "lookup_fails (Response 200 (Some (JList t [])))"
  "lookup_fails (Response 200 (Some (JDict t [(''data'', JStr s)])))"
  "lookup_fails (Response 200 (Some (JDict t [(''data'', JList t1 [JDict t2 [(''name'', v)]])])))"
  by (simp_all add: lookup_fails_def)

lemma json_path_fails:
  assumes "first_match_id data = None"
  shows "\<exists>e. and_then (getitem_key data ''data'') (\<lambda>d.
     and_then (getitem_0 d) (\<lambda>c.
     and_then (getitem_key c ''id'') (\<lambda>i. Inr (Some (py_str i))))) = Inl e"
proof (cases data)
  case (JDict t kvs)
  show ?thesis
  proof (cases "map_of kvs ''data''")
    case None
    with JDict show ?thesis by (simp add: and_then_def)
  next
    case (Some d)
    show ?thesis
    proof (cases d)
      case (JList t1 xs)
      show ?thesis
      proof (cases xs)
        case Nil
        with JDict Some JList show ?thesis by (simp add: and_then_def)
      next
        case (Cons c cs)
        show ?thesis
        proof (cases c)
          case (JDict t2 kvs2)
          with assms \<open>data = JDict t kvs\<close> Some JList Cons show ?thesis
            by (simp add: and_then_def)
        qed (use \<open>data = JDict t kvs\<close> Some JList Cons in \<open>simp_all add: and_then_def\<close>)
      qed
    next
      case (JStr s)
      with JDict Some show ?thesis by (cases s) (simp_all add: and_then_def)
    qed (use JDict Some in \<open>simp_all add: and_then_def\<close>)
  qed
qed (simp_all add: and_then_def)

lemma json_path_found:
  assumes "first_match_id data = Some i"
  shows "and_then (getitem_key data ''data'') (\<lambda>d.
     and_then (getitem_0 d) (\<lambda>c.
     and_then (getitem_key c ''id'') (\<lambda>i. Inr (Some (py_str i))))) = Inr (Some (py_str i))"
  using assms
  by (cases data) (auto simp: and_then_def split: option.splits json.splits list.splits)

lemma get_card_id_fails:
  assumes "http_get w (lookup_url n format_name) = (outcome, w')" and "lookup_fails outcome"
  shows "get_card_id http_get w n format_name = (None, w')"
proof (cases outcome)
  case RequestError
  with assms(1) show ?thesis
    by (simp add: get_card_id_def get_card_id_try_def)
next
  case (Response status_code body)
  show ?thesis
  proof (cases "status_code = 200")
    case False
    with assms(1) Response show ?thesis
      by (simp add: get_card_id_def get_card_id_try_def)
  next
    case True
    show ?thesis
    proof (cases body)
      case None
      with assms(1) Response True show ?thesis
        by (simp add: get_card_id_def get_card_id_try_def)
    next
      case (Some data)
      with assms(2) Response True have "first_match_id data = None"
        by (simp add: lookup_fails_def)
      from json_path_fails [OF this] obtain e where
        "and_then (getitem_key data ''data'') (\<lambda>d.
         and_then (getitem_0 d) (\<lambda>c.
         and_then (getitem_key c ''id'') (\<lambda>i. Inr (Some (py_str i))))) = Inl e" ..
      with assms(1) Response True Some show ?thesis
        by (simp add: get_card_id_def get_card_id_try_def)
    qed
  qed
qed

lemma get_card_id_found:
  assumes "http_get w (lookup_url n format_name) = (Response 200 (Some data), w')"
    and "first_match_id data = Some i"
  shows "get_card_id http_get w n format_name = (Some (py_str i), w')"
  using assms(1) json_path_found [OF assms(2)]
  by (simp add: get_card_id_def get_card_id_try_def)

lemma get_card_id_example:
  "get_card_id example_http () ''Pot of Greed'' (Some '''') = (Some ''55144522'', ())"
proof -
  have url: "lookup_url ''Pot of Greed'' (Some '''')
      = ''https://db.ygoprodeck.com/api/v7/cardinfo.php?name=Pot of Greed''"
    by code_simp
  have "example_http () (lookup_url ''Pot of Greed'' (Some ''''))
      = (Response 200 (Some (JDict [] [(''data'',
             JList [] [JDict [] [(''id'', JInt 55144522), (''name'', JStr ''Pot of Greed'')]])])), ())"
    unfolding url by (simp add: example_http_def)
  then show ?thesis
    using get_card_id_found [where http_get = example_http and w = "()"
        and n = "''Pot of Greed''" and format_name = "Some ''''" and i = "JInt 55144522"]
    by (simp add: dec.simps)
qed

subsection \<open>The quantity of a card line\<close>




subsection \<open>A lookup that fails\<close>

text \<open>
  Claim C3, as stated: whenever the lookup fails in any way, an unexpected shape of the
  response included, \<open>get_card_id\<close> returns \<open>None\<close> and nothing is appended. It does not
  for a response with status 200 whose first match has an \<open>id\<close> that is not a number:
  with the \<open>id\<close> \<open>null\<close>, \<open>get_card_id\<close> returns the string \<open>None\<close>, and the parser
  appends it as an identifier.
\<close>

theorem null_id_is_appended:
  "get_card_id null_id_http () ''Pot of Greed'' None = (Some ''None'', ())
   \<and> parse_deck_list (get_card_id null_id_http) () ''2 Pot of Greed'' None
       = Inr (([''None'', ''None''], [], []), ())"
  by code_simp

text \<open>
  Claim C3, amended. When the lookup for a card name fails in one of these ways: a
  network error, a status other than 200, a body that is not JSON, or a response in
  which \<open>data[0]['id']\<close> is not found (no result set or an empty one, \<open>data\<close> or its first
  item of another kind, no \<open>id\<close>), \<open>get_card_id\<close> returns \<open>None\<close> and does not raise. A
  card line with that name then changes neither a deck nor the current section, and the
  lines after it are parsed from the same decks and section as if the line had not been
  there.
\<close>

theorem lookup_failure_skips_record:
  assumes "http_get w (lookup_url n format_name) = (outcome, w')" and "lookup_fails outcome"
  shows "get_card_id http_get w n format_name = (None, w')
    \<and> (\<forall>raw q st rest. card_line raw = Inr (Some (q, n)) \<longrightarrow>
          process_line (get_card_id http_get) format_name raw (st, w) = Inr (st, w')
        \<and> parse_lines (get_card_id http_get) format_name (raw # rest) (st, w)
            = parse_lines (get_card_id http_get) format_name rest (st, w'))"
proof -
  have none: "get_card_id http_get w n format_name = (None, w')"
    using assms by (rule get_card_id_fails)
  have "process_line (get_card_id http_get) format_name raw (st, w) = Inr (st, w')"
    if "card_line raw = Inr (Some (q, n))" for raw q st
    using that none by (rule process_line_not_found)
  with none show ?thesis by (simp add: and_then_def)
qed

theorem lookup_failure_skips_record_witness:
  "example_http () (lookup_url ''Dark Magician'' None)
     = (Response 400 (Some (JDict [] [(''error'', JStr ''No card matching your query was found in the database.'')])), ())
   \<and> lookup_fails (Response 400 (Some (JDict [] [(''error'', JStr ''No card matching your query was found in the database.'')])))
   \<and> card_line ''3 Dark Magician'' = Inr (Some (3, ''Dark Magician''))
   \<and> get_card_id example_http () ''Dark Magician'' None = (None, ())
   \<and> process_line (get_card_id example_http) None ''3 Dark Magician'' (initial_state, ())
       = Inr (initial_state, ())
   \<and> parse_lines (get_card_id example_http) None [''3 Dark Magician'', ''1 Pot of Greed''] (initial_state, ())
       = parse_lines (get_card_id example_http) None [''1 Pot of Greed''] (initial_state, ())"
proof -
  let ?out = "Response 400 (Some (JDict [] [(''error'', JStr ''No card matching your query was found in the database.'')]))"
  have a: "example_http () (lookup_url ''Dark Magician'' None) = (?out, ())"
    by code_simp
  have b: "lookup_fails ?out"
    by (simp add: lookup_fails_def)
  have c: "card_line ''3 Dark Magician'' = Inr (Some (3, ''Dark Magician''))"
    by code_simp
  note inst = lookup_failure_skips_record [where http_get = example_http and w = "()" and n = "''Dark Magician''"
      and format_name = None and outcome = ?out and w' = "()"]
  show ?thesis
    using a b c inst by blast
qed

subsection \<open>A card that is found\<close>

text \<open>
  Claim C4. When the name of a card line with quantity \<open>q\<close> resolves to a non-empty
  identifier, the body of the loop appends that identifier \<open>q\<close> times to the end of the
  deck of the current section and leaves the other two decks and the current section
  as they were; and whatever lines follow, the decks after this line are a prefix of
  the final decks, so that identifiers stand in each deck in the order of the input.
\<close>

theorem resolved_card_line_appends_copies:
  assumes "card_line raw = Inr (Some (q, n))"
    and "resolver w n format_name = (Some cid, w')" and "cid \<noteq> []"
  shows "\<exists>st'. process_line resolver format_name raw (st, w) = Inr (st', w')
      \<and> deck_of (current_section st) st' = deck_of (current_section st) st @ replicate (nat q) cid
      \<and> int (length (replicate (nat q) cid)) = q
      \<and> (\<forall>sec. sec \<noteq> current_section st \<longrightarrow> deck_of sec st' = deck_of sec st)
      \<and> current_section st' = current_section st
      \<and> (\<forall>rest st'' w'' sec. parse_lines resolver format_name (raw # rest) (st, w) = Inr (st'', w'')
            \<longrightarrow> prefix (deck_of sec st') (deck_of sec st''))"
proof -
  let ?st' = "add_copies (nat q) cid st"
  have step: "process_line resolver format_name raw (st, w) = Inr (?st', w')"
    using assms(2,3) by (simp add: process_line_card [OF assms(1)])
  have later: "prefix (deck_of sec ?st') (deck_of sec st'')"
    if "parse_lines resolver format_name (raw # rest) (st, w) = Inr (st'', w'')"
    for rest st'' w'' sec
  proof -
    from that step have "parse_lines resolver format_name rest (?st', w') = Inr (st'', w'')"
      by (simp add: and_then_def)
    then show ?thesis by (rule parse_lines_appends)
  qed
  have "0 \<le> q" using card_line_quantity [OF assms(1)] by simp
  then show ?thesis
    using step later
    by (intro exI [of _ ?st']) (simp add: add_copies_deck_of add_copies_section)
qed

theorem resolved_card_line_appends_copies_witness:
  "card_line ''2 Monster Reborn'' = Inr (Some (2, ''Monster Reborn''))
   \<and> example_stub () ''Monster Reborn'' None = (Some ''83764719'', ())
   \<and> ''83764719'' \<noteq> []
   \<and> (\<exists>st'. process_line example_stub None ''2 Monster Reborn''
               (initial_state\<lparr>current_section := SExtra\<rparr>, ()) = Inr (st', ())
        \<and> deck_of SExtra st' = [''83764719'', ''83764719'']
        \<and> deck_of SMain st' = [] \<and> deck_of SSide st' = [])"
proof -
  have a: "card_line ''2 Monster Reborn'' = Inr (Some (2, ''Monster Reborn''))"
    by code_simp
  have b: "example_stub () ''Monster Reborn'' None = (Some ''83764719'', ())"
    by code_simp
  have c: "''83764719'' \<noteq> []" by simp
  have d: "replicate (nat 2) ''83764719'' = [''83764719'', ''83764719'']"
    by (simp add: numeral_2_eq_2)
  from a b c resolved_card_line_appends_copies [where raw = "''2 Monster Reborn''" and q = 2 and n = "''Monster Reborn''"
      and resolver = example_stub and w = "()" and format_name = None
      and cid = "''83764719''" and w' = "()"
      and st = "initial_state\<lparr>current_section := SExtra\<rparr>"]
  obtain st' where
    "process_line example_stub None ''2 Monster Reborn'' (initial_state\<lparr>current_section := SExtra\<rparr>, ()) = Inr (st', ())"
    "deck_of SExtra st' = deck_of SExtra (initial_state\<lparr>current_section := SExtra\<rparr>) @ replicate (nat 2) ''83764719''"
    "deck_of SMain st' = deck_of SMain (initial_state\<lparr>current_section := SExtra\<rparr>)"
    "deck_of SSide st' = deck_of SSide (initial_state\<lparr>current_section := SExtra\<rparr>)"
    by auto
  then have "process_line example_stub None ''2 Monster Reborn'' (initial_state\<lparr>current_section := SExtra\<rparr>, ()) = Inr (st', ())
     \<and> deck_of SExtra st' = [''83764719'', ''83764719'']
        \<and> deck_of SMain st' = [] \<and> deck_of SSide st' = []"
    unfolding d by (simp add: deck_of_def initial_state_def)
  then show ?thesis using a b c by blast
qed

subsection \<open>A line of digits\<close>





subsection \<open>The example deck\<close>

text \<open>
  Claim C5. The deck list \<open>#main / 1x Pot of Greed / #extra / 2 Monster Reborn / DONE\<close>,
  parsed with the stub, gives one identifier in the main deck and the same identifier
  twice in the extra deck; the file written from them has the main section with that one
  identifier, then an empty line, then the \<open>#extra\<close> header and the two identifiers.
\<close>

theorem example_deck_file:
  "parse_deck_list example_stub ()
     ''#main\<newline>1x Pot of Greed\<newline>#extra\<newline>2 Monster Reborn\<newline>DONE'' None
   = Inr (([''55144522''], [''83764719'', ''83764719''], []), ())
  \<and> write_ydk_file [''55144522''] [''83764719'', ''83764719''] []
     = ''#main\<newline>55144522\<newline>\<newline>#extra\<newline>83764719\<newline>83764719\<newline>''"
  by code_simp

subsection \<open>The name of the output file\<close>

text \<open>
  Claim C8. The name of the output file is what the user typed, stripped; \<open>.ydk\<close> is
  appended exactly when that name does not end with \<open>.ydk\<close>. So \<open>MyDeck\<close> becomes
  \<open>MyDeck.ydk\<close> and \<open>MyDeck.ydk\<close> stays as it is.
\<close>

theorem ydk_file_name_extension:
  "ydk_file_name ''MyDeck'' = ''MyDeck.ydk''
  \<and> ydk_file_name ''MyDeck.ydk'' = ''MyDeck.ydk''
  \<and> (suffix ''.ydk'' (py_strip typed) \<longrightarrow> ydk_file_name typed = py_strip typed)
  \<and> (\<not> suffix ''.ydk'' (py_strip typed) \<longrightarrow> ydk_file_name typed = py_strip typed @ ''.ydk'')"
proof -
  have "ydk_file_name ''MyDeck'' = ''MyDeck.ydk''" by code_simp
  moreover have "ydk_file_name ''MyDeck.ydk'' = ''MyDeck.ydk''" by code_simp
  ultimately show ?thesis
    by (simp add: ydk_file_name_def py_endswith_suffix)
qed

theorem ydk_file_name_extension_witness:
  "(suffix ''.ydk'' (py_strip ''My Deck.ydk'') \<and> ydk_file_name ''My Deck.ydk'' = ''My Deck.ydk'')
  \<and> (\<not> suffix ''.ydk'' (py_strip ''My Deck'') \<and> ydk_file_name ''My Deck'' = ''My Deck.ydk'')"
proof -
  have a: "py_strip ''My Deck.ydk'' = ''My Deck.ydk''" by code_simp
  have b: "py_strip ''My Deck'' = ''My Deck''" by code_simp
  have sa: "suffix ''.ydk'' (py_strip ''My Deck.ydk'')"
    unfolding a by (simp add: suffix_def)
  have sb: "\<not> suffix ''.ydk'' (py_strip ''My Deck'')"
    unfolding b by (simp add: suffix_def append_eq_Cons_conv)
  show ?thesis
    using sa sb ydk_file_name_extension [of "''My Deck.ydk''"]
      ydk_file_name_extension [of "''My Deck''"] a b
    by simp
qed

text \<open>
  Claim C10. The test for the extension compares characters exactly: a name that ends
  with \<open>.ydk\<close> written with some capital letter (\<open>.YDK\<close>, \<open>.Ydk\<close>, ...) does not pass
  it, and \<open>.ydk\<close> is appended after it; \<open>MyDeck.YDK\<close> becomes \<open>MyDeck.YDK.ydk\<close>.
\<close>

theorem ydk_file_name_case_sensitive:
  assumes "suffix v (py_strip typed)" and "py_lower v = ''.ydk''" and "v \<noteq> ''.ydk''"
  shows "ydk_file_name typed = py_strip typed @ ''.ydk''"
proof -
  have "length v = length ''.ydk''"
    using assms(2) py_lower_length [of v] by simp
  then have "\<not> suffix ''.ydk'' (py_strip typed)"
    using assms(1,3) suffix_same_length by blast
  then show ?thesis
    by (simp add: ydk_file_name_def py_endswith_suffix)
qed

theorem ydk_file_name_case_sensitive_witness:
  "suffix ''.YDK'' (py_strip ''MyDeck.YDK'') \<and> py_lower ''.YDK'' = ''.ydk'' \<and> ''.YDK'' \<noteq> ''.ydk''
   \<and> ydk_file_name ''MyDeck.YDK'' = ''MyDeck.YDK.ydk''"
proof -
  have s: "py_strip ''MyDeck.YDK'' = ''MyDeck.YDK''" by code_simp
  have a: "suffix ''.YDK'' (py_strip ''MyDeck.YDK'')"
    unfolding s by (simp add: suffix_def)
  have b: "py_lower ''.YDK'' = ''.ydk''" by code_simp
  have c: "''.YDK'' \<noteq> ''.ydk''" by simp
  show ?thesis
    using a b c ydk_file_name_case_sensitive [OF a b c] s by simp
qed

subsection \<open>The layout of the file\<close>

text \<open>
  Claim C7. Whatever the three sequences are, the file starts with the line \<open>#main\<close>
  and then every main identifier, in order, each on a line of its own. With no main
  identifier the join is empty, and the line \<open>#main\<close> is followed at once by an empty
  line.
\<close>

theorem write_ydk_file_main_block:
  "prefix (''#main\<newline>'' @ (if m = [] then ''\<newline>'' else concat (map (\<lambda>i. i @ ''\<newline>'') m)))
     (write_ydk_file m e s)
  \<and> py_join ''\<newline>'' [] @ ''\<newline>'' = ''\<newline>''
  \<and> prefix ''#main\<newline>\<newline>'' (write_ydk_file [] e s)"
proof -
  have "prefix (''#main\<newline>'' @ (if m = [] then ''\<newline>'' else concat (map (\<lambda>i. i @ ''\<newline>'') m)))
      (write_ydk_file m e s)"
  proof (cases "m = []")
    case True
    then show ?thesis
      by (simp add: write_ydk_file_def file_write_def Let_def prefix_def)
  next
    case False
    then have "py_join ''\<newline>'' m @ ''\<newline>'' = concat (map (\<lambda>i. i @ ''\<newline>'') m)"
      by (rule py_join_unlines)
    with False show ?thesis
      by (simp add: write_ydk_file_def file_write_def Let_def prefix_def)
  qed
  then show ?thesis
    by (simp add: write_ydk_file_def file_write_def Let_def prefix_def)
qed

text \<open>
  Claim C6. After the main block the file has the extra block exactly when there is an
  extra identifier, and then the side block exactly when there is a side identifier. A
  block is an empty line, the header (\<open>#extra\<close>, but \<open>!side\<close> with an exclamation mark)
  and the identifiers, one on each line.
\<close>

theorem write_ydk_file_layout:
  "write_ydk_file m e s =
    (''#main\<newline>'' @ py_join ''\<newline>'' m @ ''\<newline>'')
    @ (if e = [] then [] else ''\<newline>#extra\<newline>'' @ concat (map (\<lambda>i. i @ ''\<newline>'') e))
    @ (if s = [] then [] else ''\<newline>!side\<newline>'' @ concat (map (\<lambda>i. i @ ''\<newline>'') s))"
  by (simp add: write_ydk_file_def file_write_def Let_def py_join_unlines)

subsection \<open>Reading the file back\<close>

lemma write_ydk_file_text:
  "write_ydk_file m e s =
    (''#main\<newline>'' @ py_join ''\<newline>'' m @ ''\<newline>'')
    @ (if e = [] then [] else ''\<newline>#extra\<newline>'' @ concat (map (\<lambda>i. i @ ''\<newline>'') e))
    @ (if s = [] then [] else ''\<newline>!side\<newline>'' @ concat (map (\<lambda>i. i @ ''\<newline>'') s))"
  by (simp add: write_ydk_file_def file_write_def Let_def py_join_unlines)

lemma split_lf_line:
  "CHR 0x0A \<notin> set l \<Longrightarrow> split_lf (l @ CHR 0x0A # rest) = l # split_lf rest"
  by (induction l) auto

lemma split_lf_lines:
  "list_all ydk_id xs \<Longrightarrow>
     split_lf (concat (map (\<lambda>i. i @ ''\<newline>'') xs) @ rest) = xs @ split_lf rest"
proof (induction xs)
  case Nil
  then show ?case by simp
next
  case (Cons x xs)
  then have "CHR 0x0A \<notin> set x" by (simp add: ydk_id_def)
  from split_lf_line [OF this] Cons show ?case by simp
qed

lemma split_lf_written:
  assumes "list_all ydk_id m" and "list_all ydk_id e" and "list_all ydk_id s"
  shows "split_lf (write_ydk_file m e s) =
     ''#main'' # (if m = [] then [[]] else m)
       @ (if e = [] then [] else [[], ''#extra''] @ e)
       @ (if s = [] then [] else [[], ''!side''] @ s) @ [[]]"
proof -
  let ?unl = "\<lambda>xs. concat (map (\<lambda>i. i @ ''\<newline>'') xs)"
  have side: "split_lf (if s = [] then [] else ''\<newline>!side\<newline>'' @ ?unl s)
      = (if s = [] then [] else [[], ''!side''] @ s) @ [[]]"
    using split_lf_lines [OF assms(3), of "[]"] by simp
  have extra: "split_lf ((if e = [] then [] else ''\<newline>#extra\<newline>'' @ ?unl e) @ rest)
      = (if e = [] then [] else [[], ''#extra''] @ e) @ split_lf rest" for rest
    using split_lf_lines [OF assms(2), of rest] by simp
  have main: "split_lf (''#main\<newline>'' @ py_join ''\<newline>'' m @ ''\<newline>'' @ rest)
      = ''#main'' # (if m = [] then [[]] else m) @ split_lf rest" for rest
  proof (cases "m = []")
    case True
    then show ?thesis by simp
  next
    case False
    then have "py_join ''\<newline>'' m @ ''\<newline>'' = ?unl m" by (rule py_join_unlines)
    then have eq: "py_join ''\<newline>'' m @ ''\<newline>'' @ rest = ?unl m @ rest"
      by (metis append.assoc)
    have "split_lf (py_join ''\<newline>'' m @ ''\<newline>'' @ rest) = m @ split_lf rest"
      unfolding eq using assms(1) by (rule split_lf_lines)
    with False show ?thesis by simp
  qed
  show ?thesis
    unfolding write_ydk_file_text using main extra side by (simp del: append_assoc add: append_assoc)
qed

lemma read_ydk_lines_ids:
  "list_all ydk_id xs \<Longrightarrow>
     read_ydk_lines sec (xs @ rest) = add_ids sec xs (read_ydk_lines sec rest)"
proof (induction xs)
  case Nil
  then show ?case by (cases sec; cases "read_ydk_lines sec rest") simp_all
next
  case (Cons x xs)
  then have x: "x \<noteq> []" "x \<noteq> ''#main''" "x \<noteq> ''#extra''" "x \<noteq> ''!side''"
    and IH: "read_ydk_lines sec (xs @ rest) = add_ids sec xs (read_ydk_lines sec rest)"
    by (simp_all add: ydk_id_def)
  show ?case
    using x IH by (cases sec; cases "read_ydk_lines sec rest") simp_all
qed

lemma read_side_block:
  assumes "list_all ydk_id s"
  shows "read_ydk_lines sec ((if s = [] then [] else [[], ''!side''] @ s) @ [[]]) = ([], [], s)"
  using read_ydk_lines_ids [OF assms, of SSide "[[]]"] by simp

lemma read_extra_block:
  assumes "list_all ydk_id e" and "list_all ydk_id s"
  shows "read_ydk_lines sec ((if e = [] then [] else [[], ''#extra''] @ e)
           @ (if s = [] then [] else [[], ''!side''] @ s) @ [[]]) = ([], e, s)"
proof (cases "e = []")
  case True
  then show ?thesis using read_side_block [OF assms(2), of sec] by simp
next
  case False
  then show ?thesis
    using read_ydk_lines_ids [OF assms(1), of SExtra "(if s = [] then [] else [[], ''!side''] @ s) @ [[]]"]
      read_side_block [OF assms(2), of SExtra]
    by simp
qed

text \<open>
  With such identifiers, the file has the line \<open>#extra\<close> exactly when there is an extra
  identifier, and the line \<open>!side\<close> exactly when there is a side identifier.
\<close>

lemma header_lines_written:
  assumes "list_all ydk_id m" and "list_all ydk_id e" and "list_all ydk_id s"
  shows "(''#extra'' \<in> set (split_lf (write_ydk_file m e s)) \<longleftrightarrow> e \<noteq> [])
    \<and> (''!side'' \<in> set (split_lf (write_ydk_file m e s)) \<longleftrightarrow> s \<noteq> [])"
proof -
  have no: "''#extra'' \<notin> set xs \<and> ''!side'' \<notin> set xs" if "list_all ydk_id xs" for xs
    using that by (auto simp: list_all_iff ydk_id_def)
  show ?thesis
    unfolding split_lf_written [OF assms]
    using no [OF assms(1)] no [OF assms(2)] no [OF assms(3)] by auto
qed

text \<open>
  The identifiers the lookup returns for numeric ids, and all non-empty strings of
  digits, are identifiers in the sense of \<open>ydk_id\<close>.
\<close>

lemma digits_ydk_id:
  assumes "i \<noteq> []" and "list_all is_digit i"
  shows "ydk_id i"
proof -
  have dig: "is_digit c" if "c \<in> set i" for c
    using assms(2) that by (simp add: list_all_iff)
  have "CHR 0x0A \<notin> set i"
    using dig digit_not_newline by auto
  moreover have "is_digit (hd i)"
    using assms(1) dig by simp
  then have "hd i \<noteq> CHR ''#''" "hd i \<noteq> CHR ''!''"
    by (auto dest: digit_cases)
  then have "i \<noteq> ''#main''" "i \<noteq> ''#extra''" "i \<noteq> ''!side''"
    by auto
  ultimately show ?thesis using assms(1) by (simp add: ydk_id_def)
qed

lemma py_str_int_ydk_id: "ydk_id (py_str (JInt n))"
proof (cases "n < 0")
  case False
  then show ?thesis using dec_digits [of "nat n"] by (simp add: digits_ydk_id)
next
  case True
  have "CHR 0x0A \<notin> set (dec (nat (- n)))"
    using dec_digits [of "nat (- n)"] digit_not_newline by (auto simp: list_all_iff)
  with True show ?thesis by (simp add: ydk_id_def)
qed

text \<open>
  Claim C1, as stated: for every triple of sequences, writing the file and parsing it
  again gives the three sequences back. It does not. Parsed again with the parser of
  the repository, the file written for the one main identifier \<open>55144522\<close> gives three
  empty sequences: the line \<open>55144522\<close> is read as the card line with quantity 5514452
  and name \<open>2\<close>, which the stub does not find. And no parser at all can give back every
  triple: an identifier with a line feed in it is written as the same file as two
  identifiers.
\<close>

theorem reparse_does_not_round_trip:
  "parse_deck_list example_stub () (write_ydk_file [''55144522''] [] []) None
     = Inr (([], [], []), ())
   \<and> write_ydk_file [''1\<newline>2''] [] [] = write_ydk_file [''1'', ''2''] [] []
   \<and> [''1\<newline>2''] \<noteq> [''1'', ''2'']"
  by code_simp

text \<open>
  Claim C1, amended. For every triple of sequences of identifiers that are not empty,
  have no line feed and are not a header line, reading the written file back with
  \<open>read_ydk\<close> gives the three sequences, in the same order and with the same
  repetitions.
\<close>

theorem read_ydk_round_trip:
  assumes "list_all ydk_id m" and "list_all ydk_id e" and "list_all ydk_id s"
  shows "read_ydk (write_ydk_file m e s) = (m, e, s)"
proof -
  let ?rest = "(if e = [] then [] else [[], ''#extra''] @ e)
       @ (if s = [] then [] else [[], ''!side''] @ s) @ [[]]"
  have rest: "read_ydk_lines SMain ?rest = ([], e, s)"
    using assms(2,3) by (rule read_extra_block)
  have "read_ydk_lines SMain ((if m = [] then [[]] else m) @ ?rest) = (m, e, s)"
  proof (cases "m = []")
    case True
    with rest show ?thesis by simp
  next
    case False
    with read_ydk_lines_ids [OF assms(1), of SMain ?rest] rest show ?thesis by simp
  qed
  then show ?thesis
    unfolding read_ydk_def split_lf_written [OF assms] by simp
qed

theorem read_ydk_round_trip_witness:
  "list_all ydk_id [''55144522''] \<and> list_all ydk_id [''83764719'', ''83764719'']
   \<and> list_all ydk_id [''14558127'']
   \<and> read_ydk (write_ydk_file [''55144522''] [''83764719'', ''83764719''] [''14558127''])
       = ([''55144522''], [''83764719'', ''83764719''], [''14558127''])"
proof -
  have a: "list_all ydk_id [''55144522'']" by (simp add: ydk_id_def)
  have b: "list_all ydk_id [''83764719'', ''83764719'']" by (simp add: ydk_id_def)
  have c: "list_all ydk_id [''14558127'']" by (simp add: ydk_id_def)
  show ?thesis using a b c read_ydk_round_trip [OF a b c] by simp
qed

subsection \<open>The whole program on an example\<close>

text \<open>
  The console input: no format, a deck list of two lines, \<open>done\<close>, the file name
  \<open>MyDeck\<close>; the lookup service is \<open>example_http\<close>.
\<close>

lemma main_example:
  "main example_http () ['''', ''#main'', ''1x Pot of Greed'', ''done'', ''MyDeck'']
     = Inr (''MyDeck.ydk'', ''#main\<newline>55144522\<newline>'', ())"
proof -
  let ?r = "get_card_id example_http"
  let ?st = "\<lparr>main_deck = [], extra_deck = [], side_deck = [], current_section = SMain\<rparr>"
  have fmt: "py_strip '''' = ''''" by code_simp
  have rd: "read_deck_list [] [''#main'', ''1x Pot of Greed'', ''done'', ''MyDeck'']
      = Inr ([''#main'', ''1x Pot of Greed''], [''MyDeck''])"
    by code_simp
  have jn: "py_join ''\<newline>'' [''#main'', ''1x Pot of Greed''] = ''#main\<newline>1x Pot of Greed''"
    by code_simp
  have nm: "ydk_file_name ''MyDeck'' = ''MyDeck.ydk''" by code_simp
  have ls: "py_splitlines ''#main\<newline>1x Pot of Greed'' = [''#main'', ''1x Pot of Greed'']"
    by code_simp
  have hdr: "py_strip ''#main'' = ''#main''" "py_lower ''#main'' = ''#main''"
    by code_simp+
  have l1: "process_line ?r (Some '''') ''#main'' (?st, ()) = Inr (?st, ())"
    by (simp add: process_line_def hdr)
  have "card_line ''1x Pot of Greed'' = Inr (Some (1, ''Pot of Greed''))" by code_simp
  from process_line_card [OF this, of ?r "Some ''''" ?st "()"]
  have l2: "process_line ?r (Some '''') ''1x Pot of Greed'' (?st, ())
      = Inr (?st\<lparr>main_deck := [''55144522'']\<rparr>, ())"
    by (simp add: get_card_id_example append_id_def)
  have ps: "parse_deck_list ?r () ''#main\<newline>1x Pot of Greed'' (Some '''')
      = Inr (([''55144522''], [], []), ())"
    unfolding parse_deck_list_def ls initial_state_def
    by (simp add: l1 l2 and_then_def)
  have wr: "write_ydk_file [''55144522''] [] [] = ''#main\<newline>55144522\<newline>''"
    by code_simp
  show ?thesis
    unfolding main_def by (simp add: fmt rd jn nm ps wr and_then_def del: read_deck_list.simps)
qed

end
